theory Spec2Isabelle
  imports Complex_Main "HOL-Library.Word"
begin

section \<open>The payment ledger: X402PaymentGate.sol\<close>

text \<open>
  Solidity value types are machine words: \<open>uint256\<close> and \<open>bytes32\<close> have 256 bits,
  an \<open>address\<close> has 160. Since Solidity 0.8 the operators \<open>+\<close>, \<open>-\<close> and \<open>+=\<close>
  are checked: on overflow or underflow the call panics and every state change of the
  transaction is undone. A failed \<open>require\<close> reverts with its message. Both are values
  of \<open>failure\<close>; a call returns \<open>failure + state\<close>.
\<close>

type_synonym uint256 = "256 word"
type_synonym bytes32 = "256 word"
type_synonym address = "160 word"

datatype failure = Revert string | Panic

definition checked_add :: "uint256 \<Rightarrow> uint256 \<Rightarrow> failure + uint256" where
  "checked_add a b = (if unat a + unat b < 2 ^ 256 then Inr (a + b) else Inl Panic)"

definition checked_sub :: "uint256 \<Rightarrow> uint256 \<Rightarrow> failure + uint256" where
  "checked_sub a b = (if b \<le> a then Inr (a - b) else Inl Panic)"

subsection \<open>The token: MockERC20 of X402PaymentGate.t.sol\<close>

text \<open>
  The gate moves funds through an ERC-20 token it only knows by interface. The one
  implementation in the repository is the test suite's \<open>MockERC20\<close>; it is the token
  of this model. The first argument of \<open>transfer\<close> and \<open>transferFrom\<close> is
  \<open>msg.sender\<close>. Both return \<open>true\<close> whenever they return, so the gate's
  \<open>require\<close> around them never fires on its own. The token's name, symbol and
  decimals are constants that no call reads; they are left out.
\<close>

record MockERC20 =
  totalSupply :: uint256
  balanceOf :: "address \<Rightarrow> uint256"
  allowance :: "address \<Rightarrow> address \<Rightarrow> uint256"

definition mint :: "address \<Rightarrow> uint256 \<Rightarrow> MockERC20 \<Rightarrow> failure + MockERC20" where
  "mint to amt t =
     (case checked_add (balanceOf t to) amt of
        Inl e \<Rightarrow> Inl e
      | Inr b \<Rightarrow>
          (case checked_add (totalSupply t) amt of
             Inl e \<Rightarrow> Inl e
           | Inr ts \<Rightarrow> Inr (t\<lparr>balanceOf := (balanceOf t)(to := b), totalSupply := ts\<rparr>)))"

definition approve :: "address \<Rightarrow> address \<Rightarrow> uint256 \<Rightarrow> MockERC20 \<Rightarrow> failure + MockERC20" where
  "approve sender spender amt t =
     Inr (t\<lparr>allowance := (allowance t)(sender := (allowance t sender)(spender := amt))\<rparr>)"

definition transfer :: "address \<Rightarrow> address \<Rightarrow> uint256 \<Rightarrow> MockERC20 \<Rightarrow> failure + MockERC20" where
  "transfer sender to amt t =
     (if \<not> amt \<le> balanceOf t sender then Inl (Revert ''Insufficient balance'')
      else
        let b1 = (balanceOf t)(sender := balanceOf t sender - amt) in
        (case checked_add (b1 to) amt of
           Inl e \<Rightarrow> Inl e
         | Inr v \<Rightarrow> Inr (t\<lparr>balanceOf := b1(to := v)\<rparr>)))"

definition transferFrom ::
  "address \<Rightarrow> address \<Rightarrow> address \<Rightarrow> uint256 \<Rightarrow> MockERC20 \<Rightarrow> failure + MockERC20" where
  "transferFrom sender from to amt t =
     (if \<not> amt \<le> balanceOf t from then Inl (Revert ''Insufficient balance'')
      else if \<not> amt \<le> allowance t from sender then Inl (Revert ''Insufficient allowance'')
      else
        let a1 = (allowance t)(from := (allowance t from)(sender := allowance t from sender - amt));
            b1 = (balanceOf t)(from := balanceOf t from - amt) in
        (case checked_add (b1 to) amt of
           Inl e \<Rightarrow> Inl e
         | Inr v \<Rightarrow> Inr (t\<lparr>allowance := a1, balanceOf := b1(to := v)\<rparr>)))"

subsection \<open>Contract state\<close>

record Session =
  payer :: address
  totalLocked :: uint256
  totalSpent :: uint256
  stepCount :: uint256
  settled :: bool

record StepPayment =
  amount :: uint256
  authorized :: bool
  confirmed :: bool
  refunded :: bool

text \<open>
  A Solidity mapping holds a value at every key; a key never written holds the zero
  value of the type. So \<open>sessions\<close> and \<open>stepPayments\<close> are total functions.
  \<open>paymentToken\<close> is the state of the token contract, \<open>operator\<close> and
  \<open>this\<close> (the gate's own address) are fixed at deployment.
\<close>

record X402PaymentGate =
  paymentToken :: MockERC20
  operator :: address
  this :: address
  sessions :: "bytes32 \<Rightarrow> Session"
  stepPayments :: "bytes32 \<Rightarrow> bytes32 \<Rightarrow> StepPayment"

definition zero_Session :: Session where
  "zero_Session = \<lparr>payer = 0, totalLocked = 0, totalSpent = 0, stepCount = 0, settled = False\<rparr>"

definition zero_StepPayment :: StepPayment where
  "zero_StepPayment = \<lparr>amount = 0, authorized = False, confirmed = False, refunded = False\<rparr>"

definition constructor :: "MockERC20 \<Rightarrow> address \<Rightarrow> address \<Rightarrow> X402PaymentGate" where
  "constructor tok self theOperator =
     \<lparr>paymentToken = tok, operator = theOperator, this = self,
      sessions = (\<lambda>_. zero_Session), stepPayments = (\<lambda>_ _. zero_StepPayment)\<rparr>"

subsection \<open>Modifiers\<close>

definition onlyOperator :: "address \<Rightarrow> X402PaymentGate \<Rightarrow> failure option" where
  "onlyOperator sender g =
     (if sender = operator g then None else Some (Revert ''X402: caller is not operator''))"

definition sessionExists :: "bytes32 \<Rightarrow> X402PaymentGate \<Rightarrow> failure option" where
  "sessionExists sessionId g =
     (if payer (sessions g sessionId) \<noteq> 0 then None else Some (Revert ''X402: session not found''))"

definition sessionNotSettled :: "bytes32 \<Rightarrow> X402PaymentGate \<Rightarrow> failure option" where
  "sessionNotSettled sessionId g =
     (if \<not> settled (sessions g sessionId) then None
      else Some (Revert ''X402: session already settled''))"

text \<open>The three modifiers of the operator's functions, in the order they are listed.\<close>

definition operator_call :: "address \<Rightarrow> bytes32 \<Rightarrow> X402PaymentGate \<Rightarrow> failure option" where
  "operator_call sender sessionId g =
     (case onlyOperator sender g of
        Some e \<Rightarrow> Some e
      | None \<Rightarrow>
          (case sessionExists sessionId g of
             Some e \<Rightarrow> Some e
           | None \<Rightarrow> sessionNotSettled sessionId g))"

subsection \<open>Core functions\<close>

definition lockBudget ::
  "address \<Rightarrow> bytes32 \<Rightarrow> uint256 \<Rightarrow> uint256 \<Rightarrow> X402PaymentGate \<Rightarrow> failure + X402PaymentGate" where
  "lockBudget sender sessionId totalAmount stepCnt g =
     (if payer (sessions g sessionId) \<noteq> 0 then Inl (Revert ''X402: session exists'')
      else if \<not> 0 < totalAmount then Inl (Revert ''X402: zero amount'')
      else if \<not> 0 < stepCnt then Inl (Revert ''X402: zero steps'')
      else
        (case transferFrom (this g) sender (this g) totalAmount (paymentToken g) of
           Inl e \<Rightarrow> Inl e
         | Inr tok \<Rightarrow>
             Inr (g\<lparr>paymentToken := tok,
                    sessions := (sessions g)(sessionId :=
                      \<lparr>payer = sender, totalLocked = totalAmount, totalSpent = 0,
                       stepCount = stepCnt, settled = False\<rparr>)\<rparr>)))"

definition authorizePayment ::
  "address \<Rightarrow> bytes32 \<Rightarrow> bytes32 \<Rightarrow> uint256 \<Rightarrow> X402PaymentGate \<Rightarrow> failure + X402PaymentGate" where
  "authorizePayment sender sessionId stepId amt g =
     (case operator_call sender sessionId g of
        Some e \<Rightarrow> Inl e
      | None \<Rightarrow>
          (case checked_add (totalSpent (sessions g sessionId)) amt of
             Inl e \<Rightarrow> Inl e
           | Inr newSpent \<Rightarrow>
               if \<not> newSpent \<le> totalLocked (sessions g sessionId)
               then Inl (Revert ''X402: exceeds budget'')
               else if authorized (stepPayments g sessionId stepId)
               then Inl (Revert ''X402: step already authorized'')
               else
                 Inr (g\<lparr>stepPayments := (stepPayments g)(sessionId :=
                        (stepPayments g sessionId)(stepId :=
                          \<lparr>amount = amt, authorized = True, confirmed = False,
                           refunded = False\<rparr>))\<rparr>)))"

definition confirmExecution ::
  "address \<Rightarrow> bytes32 \<Rightarrow> bytes32 \<Rightarrow> X402PaymentGate \<Rightarrow> failure + X402PaymentGate" where
  "confirmExecution sender sessionId stepId g =
     (case operator_call sender sessionId g of
        Some e \<Rightarrow> Inl e
      | None \<Rightarrow>
          let step = stepPayments g sessionId stepId in
          if \<not> authorized step then Inl (Revert ''X402: step not authorized'')
          else if confirmed step then Inl (Revert ''X402: already confirmed'')
          else if refunded step then Inl (Revert ''X402: already refunded'')
          else
            (case checked_add (totalSpent (sessions g sessionId)) (amount step) of
               Inl e \<Rightarrow> Inl e
             | Inr newSpent \<Rightarrow>
                 Inr (g\<lparr>stepPayments := (stepPayments g)(sessionId :=
                          (stepPayments g sessionId)(stepId := step\<lparr>confirmed := True\<rparr>)),
                        sessions := (sessions g)(sessionId :=
                          (sessions g sessionId)\<lparr>totalSpent := newSpent\<rparr>)\<rparr>)))"

definition refund ::
  "address \<Rightarrow> bytes32 \<Rightarrow> bytes32 \<Rightarrow> X402PaymentGate \<Rightarrow> failure + X402PaymentGate" where
  "refund sender sessionId stepId g =
     (case operator_call sender sessionId g of
        Some e \<Rightarrow> Inl e
      | None \<Rightarrow>
          let step = stepPayments g sessionId stepId in
          if \<not> authorized step then Inl (Revert ''X402: step not authorized'')
          else if confirmed step then Inl (Revert ''X402: already confirmed'')
          else if refunded step then Inl (Revert ''X402: already refunded'')
          else
            Inr (g\<lparr>stepPayments := (stepPayments g)(sessionId :=
                   (stepPayments g sessionId)(stepId := step\<lparr>refunded := True\<rparr>))\<rparr>))"

text \<open>
  \<open>settleBudget\<close> writes the session first and then pays out: the unused part to the
  payer, the spent part to the operator, each only when it is not zero.
\<close>

definition settleBudget ::
  "address \<Rightarrow> bytes32 \<Rightarrow> uint256 \<Rightarrow> X402PaymentGate \<Rightarrow> failure + X402PaymentGate" where
  "settleBudget sender sessionId spent g =
     (case operator_call sender sessionId g of
        Some e \<Rightarrow> Inl e
      | None \<Rightarrow>
          let session = sessions g sessionId in
          if \<not> spent \<le> totalLocked session then Inl (Revert ''X402: spent exceeds locked'')
          else
            let session' = session\<lparr>totalSpent := spent, settled := True\<rparr>;
                refundAmount = totalLocked session - spent in
            (case (if 0 < refundAmount
                   then transfer (this g) (payer session) refundAmount (paymentToken g)
                   else Inr (paymentToken g)) of
               Inl e \<Rightarrow> Inl e
             | Inr tok1 \<Rightarrow>
                 (case (if 0 < spent then transfer (this g) (operator g) spent tok1
                        else Inr tok1) of
                    Inl e \<Rightarrow> Inl e
                  | Inr tok2 \<Rightarrow>
                      Inr (g\<lparr>paymentToken := tok2,
                             sessions := (sessions g)(sessionId := session')\<rparr>))))"

subsection \<open>View functions\<close>

definition getRemainingBudget :: "bytes32 \<Rightarrow> X402PaymentGate \<Rightarrow> failure + uint256" where
  "getRemainingBudget sessionId g =
     checked_sub (totalLocked (sessions g sessionId)) (totalSpent (sessions g sessionId))"

definition isStepAuthorized :: "bytes32 \<Rightarrow> bytes32 \<Rightarrow> X402PaymentGate \<Rightarrow> bool" where
  "isStepAuthorized sessionId stepId g = authorized (stepPayments g sessionId stepId)"

definition isStepConfirmed :: "bytes32 \<Rightarrow> bytes32 \<Rightarrow> X402PaymentGate \<Rightarrow> bool" where
  "isStepConfirmed sessionId stepId g = confirmed (stepPayments g sessionId stepId)"

subsection \<open>Transactions\<close>

text \<open>
  A transaction is a sender and one call of the gate. A call that fails leaves the
  state as it was (the EVM undoes a reverted transaction); \<open>run\<close> applies a list of
  transactions in order.
\<close>

datatype call =
    LockBudget bytes32 uint256 uint256
  | AuthorizePayment bytes32 bytes32 uint256
  | ConfirmExecution bytes32 bytes32
  | Refund bytes32 bytes32
  | SettleBudget bytes32 uint256

fun exec :: "address \<Rightarrow> call \<Rightarrow> X402PaymentGate \<Rightarrow> failure + X402PaymentGate" where
  "exec sender (LockBudget sid amt n) g = lockBudget sender sid amt n g"
| "exec sender (AuthorizePayment sid k amt) g = authorizePayment sender sid k amt g"
| "exec sender (ConfirmExecution sid k) g = confirmExecution sender sid k g"
| "exec sender (Refund sid k) g = refund sender sid k g"
| "exec sender (SettleBudget sid spent) g = settleBudget sender sid spent g"

definition transact :: "X402PaymentGate \<Rightarrow> address \<times> call \<Rightarrow> X402PaymentGate" where
  "transact g tx = (case exec (fst tx) (snd tx) g of Inl e \<Rightarrow> g | Inr g' \<Rightarrow> g')"

definition run :: "(address \<times> call) list \<Rightarrow> X402PaymentGate \<Rightarrow> X402PaymentGate" where
  "run txs g = foldl transact g txs"


section \<open>The step scheduler: agent/executor.ts and agent/types.ts\<close>

text \<open>
  A JavaScript \<open>number\<close> is modelled as an exact rational; \<open>None\<close> stands for the two
  non-values a lookup or a sum can yield (\<open>undefined\<close>, \<open>NaN\<close>). Rounding of doubles is
  not modelled, and no statement below depends on it. Values read from the wall clock
  (\<open>duration_ms\<close>, \<open>timestamp\<close>, \<open>created_at\<close>, \<open>accessed_at\<close>, the digits inside
  a transaction hash) are left out of the records.
\<close>

type_synonym jsnumber = "rat option"

definition js_add :: "jsnumber \<Rightarrow> jsnumber \<Rightarrow> jsnumber" where
  "js_add a b = (case a of None \<Rightarrow> None | Some x \<Rightarrow> (case b of None \<Rightarrow> None | Some y \<Rightarrow> Some (x + y)))"

text \<open>
  \<open>ToolType\<close> is a union of four string literals that is not checked at run time:
  \<open>other_tool\<close> is any other string a plan may carry.
\<close>

datatype ToolType = anthropic | tavily | blockchain_rpc | reasoning | other_tool string

record AnthropicConfig =
  model :: string
  max_tokens :: nat

record TavilyConfig =
  search_depth :: string
  max_results :: nat

record RpcConfig =
  chain_id :: nat
  rpc_method :: string
  rpc_params :: "string list"

record ToolConfig =
  anthropic_config :: "AnthropicConfig option"
  tavily_config :: "TavilyConfig option"
  blockchain_rpc_config :: "RpcConfig option"

record Step =
  stp_id :: string
  stp_index :: nat
  description :: string
  tool :: ToolType
  tool_config :: ToolConfig
  estimated_cost_usd :: rat
  depends_on :: "string list"

datatype StepStatus = completed | failed | skipped | payment_denied

datatype TxHash = SimTx string | ChainTx

record TavilyResult =
  r_title :: string
  r_url :: string
  r_content :: string
  r_score :: rat

datatype ToolData =
    AnthropicData string
  | TavilyData string "TavilyResult list"
  | RpcData string

record StepResult =
  step_id :: string
  index :: nat
  status :: StepStatus
  res_tool :: ToolType
  res_output :: "ToolData option"
  actual_cost_usd :: jsnumber
  payment_tx_hash :: "TxHash option"
  error :: "string option"
  sources :: "string list"

record ExecutionPlan =
  session_id :: string
  query :: string
  steps :: "Step list"
  step_count :: nat
  total_estimated_cost :: rat
  max_budget :: rat

record PaymentAuthorization =
  pa_step_id :: string
  amount_usd :: rat
  pa_authorized :: bool
  tx_hash :: "TxHash option"
  pa_error :: "string option"

fun COST_PER_TOOL :: "ToolType \<Rightarrow> jsnumber" where
  "COST_PER_TOOL anthropic = Some (8 / 100)"
| "COST_PER_TOOL tavily = Some (1 / 100)"
| "COST_PER_TOOL blockchain_rpc = Some (1 / 1000)"
| "COST_PER_TOOL reasoning = Some (5 / 100)"
| "COST_PER_TOOL (other_tool t) = None"

record ExecutorConfig =
  anthropicApiKey :: string
  tavilyApiKey :: string
  rpcUrl :: string
  x402ContractAddress :: string
  privateKey :: string

subsection \<open>The outside world\<close>

text \<open>
  The three services the tools talk to are not part of the program. Their answers are
  a parameter: a \<open>World\<close> maps each request to a thrown message (\<open>Inl\<close>) or a
  response. A response of \<open>fetch\<close> carries the \<open>ok\<close> flag, the status line and what
  \<open>response.json()\<close> gives.
\<close>

datatype ContentBlock = TextBlock string | OtherBlock

record 'a Response =
  ok :: bool
  http_status :: string
  statusText :: string
  json :: "string + 'a"

record TavilyBody =
  answer :: string
  tavily_results :: "TavilyResult list"

record RpcBody =
  rpc_error :: "string option"
  rpc_result :: string

record World =
  messages_create :: "string \<Rightarrow> nat \<Rightarrow> string \<Rightarrow> string \<Rightarrow> (nat \<times> ToolData option) list
                        \<Rightarrow> string + ContentBlock list"
  fetch_tavily :: "string \<Rightarrow> string \<Rightarrow> string \<Rightarrow> nat \<Rightarrow> string + TavilyBody Response"
  fetch_rpc :: "string \<Rightarrow> string \<Rightarrow> string list \<Rightarrow> string + RpcBody Response"

subsection \<open>The executor\<close>

text \<open>
  Every \<open>console.log\<close> of the executor is one entry of \<open>console\<close>; the entry keeps
  the values the line is formatted from.
\<close>

datatype ContractArg = ArgString string | ArgNumber int

datatype LogEntry =
    SimulatedPaymentAuth string rat
  | ContractCall string "ContractArg list"
  | PaymentConfirmed string
  | PaymentRefunded string

record Executor =
  config :: ExecutorConfig
  stepResults :: "StepResult list"
  ex_totalSpent :: jsnumber
  console :: "LogEntry list"

definition new_Executor :: "ExecutorConfig \<Rightarrow> Executor" where
  "new_Executor cfg = \<lparr>config = cfg, stepResults = [], ex_totalSpent = Some 0, console = []\<rparr>"

record ToolOutput =
  data :: ToolData
  out_sources :: "string list"

definition executeAnthropic :: "World \<Rightarrow> Step \<Rightarrow> ExecutionPlan \<Rightarrow> Executor \<Rightarrow> string + ToolOutput" where
  "executeAnthropic w step plan ex =
     (let context = map (\<lambda>r. (index r, res_output r)) (filter (\<lambda>r. status r = completed) (stepResults ex));
          mdl = (case anthropic_config (tool_config step) of
                   None \<Rightarrow> ''claude-sonnet-4-20250514''
                 | Some c \<Rightarrow> if model c = [] then ''claude-sonnet-4-20250514'' else model c);
          maxTokens = (case anthropic_config (tool_config step) of
                         None \<Rightarrow> 1024
                       | Some c \<Rightarrow> if max_tokens c = 0 then 1024 else max_tokens c)
      in case messages_create w mdl maxTokens (query plan) (description step) context of
           Inl e \<Rightarrow> Inl e
         | Inr content \<Rightarrow>
             (case content of
                [] \<Rightarrow> Inl ''TypeError: response.content[0] is undefined''
              | b # _ \<Rightarrow>
                  let text = (case b of TextBlock t \<Rightarrow> t | OtherBlock \<Rightarrow> [])
                  in Inr \<lparr>data = AnthropicData text, out_sources = [''anthropic:'' @ mdl]\<rparr>))"

definition executeTavily :: "World \<Rightarrow> Step \<Rightarrow> Executor \<Rightarrow> string + ToolOutput" where
  "executeTavily w step ex =
     (let searchDepth = (case tavily_config (tool_config step) of
                           None \<Rightarrow> ''advanced''
                         | Some c \<Rightarrow> if search_depth c = [] then ''advanced'' else search_depth c);
          maxResults = (case tavily_config (tool_config step) of
                          None \<Rightarrow> 5
                        | Some c \<Rightarrow> if max_results c = 0 then 5 else max_results c)
      in case fetch_tavily w (tavilyApiKey (config ex)) (description step) searchDepth maxResults of
           Inl e \<Rightarrow> Inl e
         | Inr response \<Rightarrow>
             if \<not> ok response
             then Inl (''Tavily API error: '' @ http_status response @ '' '' @ statusText response)
             else
               (case json response of
                  Inl e \<Rightarrow> Inl e
                | Inr body \<Rightarrow>
                    Inr \<lparr>data = TavilyData (answer body) (tavily_results body),
                         out_sources = map r_url (tavily_results body)\<rparr>))"

definition executeBlockchainRPC :: "World \<Rightarrow> Step \<Rightarrow> Executor \<Rightarrow> string + ToolOutput" where
  "executeBlockchainRPC w step ex =
     (let mth = (case blockchain_rpc_config (tool_config step) of
                   None \<Rightarrow> ''eth_call''
                 | Some c \<Rightarrow> if rpc_method c = [] then ''eth_call'' else rpc_method c);
          prms = (case blockchain_rpc_config (tool_config step) of
                    None \<Rightarrow> []
                  | Some c \<Rightarrow> rpc_params c)
      in case fetch_rpc w (rpcUrl (config ex)) mth prms of
           Inl e \<Rightarrow> Inl e
         | Inr response \<Rightarrow>
             if \<not> ok response
             then Inl (''RPC error: '' @ http_status response @ '' '' @ statusText response)
             else
               (case json response of
                  Inl e \<Rightarrow> Inl e
                | Inr body \<Rightarrow>
                    (case rpc_error body of
                       Some m \<Rightarrow> Inl (''RPC call failed: '' @ m)
                     | None \<Rightarrow>
                         Inr \<lparr>data = RpcData (rpc_result body),
                              out_sources = [''rpc:'' @ rpcUrl (config ex) @ '':'' @ mth]\<rparr>)))"

definition executeTool :: "World \<Rightarrow> Step \<Rightarrow> ExecutionPlan \<Rightarrow> Executor \<Rightarrow> string + ToolOutput" where
  "executeTool w step plan ex =
     (case tool step of
        anthropic \<Rightarrow> executeAnthropic w step plan ex
      | reasoning \<Rightarrow> executeAnthropic w step plan ex
      | tavily \<Rightarrow> executeTavily w step ex
      | blockchain_rpc \<Rightarrow> executeBlockchainRPC w step ex
      | other_tool t \<Rightarrow> Inl (''Unknown tool: '' @ t))"


subsection \<open>The payment gate as the executor sees it\<close>

text \<open>
  \<open>callContract\<close> is a stub: it logs the call and returns a hash made from the clock.
  It has no failing path. \<open>hashStepId\<close> is the hex encoding of the bytes of the step
  id, padded with \<open>0\<close> to 64 digits.
\<close>

definition hex_digit :: "nat \<Rightarrow> char" where
  "hex_digit n = (if n < 10 then char_of (48 + n) else char_of (87 + n))"

definition hex_byte :: "char \<Rightarrow> string" where
  "hex_byte c = [hex_digit ((of_char c :: nat) div 16), hex_digit ((of_char c :: nat) mod 16)]"

definition padEnd :: "nat \<Rightarrow> char \<Rightarrow> string \<Rightarrow> string" where
  "padEnd n c s = s @ replicate (n - length s) c"

definition hashStepId :: "string \<Rightarrow> string" where
  "hashStepId stepId = ''0x'' @ padEnd 64 (CHR ''0'') (concat (map hex_byte stepId))"

definition callContract :: "string \<Rightarrow> ContractArg list \<Rightarrow> string \<Rightarrow> Executor \<Rightarrow> TxHash \<times> Executor" where
  "callContract mth args sessionId ex = (ChainTx, ex\<lparr>console := console ex @ [ContractCall mth args]\<rparr>)"

definition on_chain :: "ExecutorConfig \<Rightarrow> bool" where
  "on_chain cfg \<longleftrightarrow>
     x402ContractAddress cfg \<noteq> [] \<and>
     x402ContractAddress cfg \<noteq> ''0x0000000000000000000000000000000000000000''"

text \<open>
  The executor's \<open>authorizePayment\<close>. The source computes a local \<open>remaining\<close>
  from the estimate and never reads it. Its \<open>catch\<close> clause turns whatever the
  contract call throws into an authorization with \<open>authorized: false\<close>
  (\<open>authorization_failed\<close>). To exercise that clause the contract call is a parameter
  of \<open>authorizePayment_via\<close>: a function that throws (\<open>Inl\<close>) or returns a hash
  and the executor it has logged into. The executor itself passes its stub, which
  never throws; that is \<open>Executor_authorizePayment\<close> (the ledger has a function of the
  same name).
\<close>

type_synonym contract_call =
  "string \<Rightarrow> ContractArg list \<Rightarrow> string \<Rightarrow> Executor \<Rightarrow> string + TxHash \<times> Executor"

type_synonym authorizer = "Step \<Rightarrow> string \<Rightarrow> Executor \<Rightarrow> PaymentAuthorization \<times> Executor"

definition authorization_failed :: "Step \<Rightarrow> string \<Rightarrow> PaymentAuthorization" where
  "authorization_failed step msg =
     \<lparr>pa_step_id = stp_id step, amount_usd = estimated_cost_usd step, pa_authorized = False,
      tx_hash = None, pa_error = Some msg\<rparr>"

definition authorizePayment_via :: "contract_call \<Rightarrow> authorizer" where
  "authorizePayment_via cc step sessionId ex =
     (if on_chain (config ex) then
        let stepIdHash = hashStepId (stp_id step);
            amountWei = \<lfloor>estimated_cost_usd step * 1000000\<rfloor>
        in (case cc ''authorizePayment'' [ArgString stepIdHash, ArgNumber amountWei] sessionId ex of
              Inr (txHash, ex') \<Rightarrow>
                (\<lparr>pa_step_id = stp_id step, amount_usd = estimated_cost_usd step,
                  pa_authorized = True, tx_hash = Some txHash, pa_error = None\<rparr>, ex')
            | Inl msg \<Rightarrow> (authorization_failed step msg, ex))
      else
        (\<lparr>pa_step_id = stp_id step, amount_usd = estimated_cost_usd step,
          pa_authorized = True, tx_hash = Some (SimTx (stp_id step)), pa_error = None\<rparr>,
         ex\<lparr>console := console ex @
               [SimulatedPaymentAuth (stp_id step) (estimated_cost_usd step)]\<rparr>))"

definition Executor_authorizePayment :: authorizer where
  "Executor_authorizePayment =
     authorizePayment_via (\<lambda>mth args sessionId ex. Inr (callContract mth args sessionId ex))"

definition confirmPayment :: "string \<Rightarrow> string \<Rightarrow> Executor \<Rightarrow> Executor" where
  "confirmPayment stepId sessionId ex =
     (let ex1 = (if on_chain (config ex)
                 then snd (callContract ''confirmExecution'' [ArgString (hashStepId stepId)] sessionId ex)
                 else ex)
      in ex1\<lparr>console := console ex1 @ [PaymentConfirmed stepId]\<rparr>)"

definition refundPayment :: "string \<Rightarrow> string \<Rightarrow> Executor \<Rightarrow> Executor" where
  "refundPayment stepId sessionId ex =
     (let ex1 = (if on_chain (config ex)
                 then snd (callContract ''refund'' [ArgString (hashStepId stepId)] sessionId ex)
                 else ex)
      in ex1\<lparr>console := console ex1 @ [PaymentRefunded stepId]\<rparr>)"

subsection \<open>executeAll\<close>

definition denied_result :: "Step \<Rightarrow> PaymentAuthorization \<Rightarrow> StepResult" where
  "denied_result step payment =
     \<lparr>step_id = stp_id step, index = stp_index step, status = payment_denied,
      res_tool = tool step, res_output = None, actual_cost_usd = Some 0,
      payment_tx_hash = None,
      error = Some (case pa_error payment of
                      None \<Rightarrow> ''x402 payment authorization denied''
                    | Some e \<Rightarrow> if e = [] then ''x402 payment authorization denied'' else e),
      sources = []\<rparr>"

definition completed_result :: "Step \<Rightarrow> PaymentAuthorization \<Rightarrow> ToolOutput \<Rightarrow> jsnumber \<Rightarrow> StepResult" where
  "completed_result step payment out actualCost =
     \<lparr>step_id = stp_id step, index = stp_index step, status = completed,
      res_tool = tool step, res_output = Some (data out), actual_cost_usd = actualCost,
      payment_tx_hash = tx_hash payment, error = None, sources = out_sources out\<rparr>"

definition failed_result :: "Step \<Rightarrow> PaymentAuthorization \<Rightarrow> string \<Rightarrow> StepResult" where
  "failed_result step payment msg =
     \<lparr>step_id = stp_id step, index = stp_index step, status = failed,
      res_tool = tool step, res_output = None, actual_cost_usd = Some 0,
      payment_tx_hash = tx_hash payment, error = Some msg, sources = []\<rparr>"

text \<open>
  The \<open>for\<close> loop of \<open>executeAll\<close>, as a recursion over the steps still to run; the
  boolean is \<open>halted\<close>. The authorization call is the parameter \<open>auth\<close>, so that
  the loop can be studied for any behaviour of the payment gate; \<open>executeAll\<close> passes
  \<open>Executor_authorizePayment\<close>.
\<close>

fun executeAll_loop ::
  "authorizer \<Rightarrow> World \<Rightarrow> ExecutionPlan \<Rightarrow> Step list \<Rightarrow> Executor \<Rightarrow> bool \<times> Executor" where
  "executeAll_loop auth w plan [] ex = (False, ex)"
| "executeAll_loop auth w plan (step # rest) ex =
     (let (payment, ex1) = auth step (session_id plan) ex in
      if \<not> pa_authorized payment
      then (True, ex1\<lparr>stepResults := stepResults ex1 @ [denied_result step payment]\<rparr>)
      else
        (case executeTool w step plan ex1 of
           Inr out \<Rightarrow>
             let actualCost = COST_PER_TOOL (tool step);
                 ex2 = ex1\<lparr>ex_totalSpent := js_add (ex_totalSpent ex1) actualCost\<rparr>;
                 ex3 = ex2\<lparr>stepResults := stepResults ex2 @
                             [completed_result step payment out actualCost]\<rparr>
             in executeAll_loop auth w plan rest
                  (confirmPayment (stp_id step) (session_id plan) ex3)
         | Inl msg \<Rightarrow>
             let ex2 = ex1\<lparr>stepResults := stepResults ex1 @ [failed_result step payment msg]\<rparr>
             in executeAll_loop auth w plan rest
                  (refundPayment (stp_id step) (session_id plan) ex2)))"

record RunResult =
  results :: "StepResult list"
  run_totalSpent :: jsnumber
  halted :: bool

definition executeAll_with ::
  "authorizer \<Rightarrow> World \<Rightarrow> ExecutionPlan \<Rightarrow> Executor \<Rightarrow> RunResult \<times> Executor" where
  "executeAll_with auth w plan ex =
     (let (h, ex') = executeAll_loop auth w plan (steps plan) ex
      in (\<lparr>results = stepResults ex', run_totalSpent = ex_totalSpent ex', halted = h\<rparr>, ex'))"

definition executeAll :: "World \<Rightarrow> ExecutionPlan \<Rightarrow> Executor \<Rightarrow> RunResult \<times> Executor" where
  "executeAll w plan ex = executeAll_with Executor_authorizePayment w plan ex"

section \<open>The result aggregator: agent/synthesizer.ts\<close>

text \<open>
  \<open>synthesize\<close> asks a language model for the prose; the counts and the source list
  of its report are computed from the step results alone.
\<close>

definition completedSteps :: "StepResult list \<Rightarrow> StepResult list" where
  "completedSteps rs = filter (\<lambda>r. status r = completed) rs"

definition allSources :: "StepResult list \<Rightarrow> string list" where
  "allSources rs = concat (map sources (completedSteps rs))"

definition steps_executed :: "StepResult list \<Rightarrow> nat" where
  "steps_executed rs = length (completedSteps rs)"

definition steps_total :: "StepResult list \<Rightarrow> nat" where
  "steps_total rs = length rs"

record SourceReference =
  url :: string
  title :: string
  relevance :: string

text \<open>
  \<open>[...new Set(sources)]\<close>: a \<open>Set\<close> keeps its elements in insertion order and
  ignores an element it already has.
\<close>

definition unique :: "string list \<Rightarrow> string list" where
  "unique xs = foldl (\<lambda>acc x. if x \<in> set acc then acc else acc @ [x]) [] xs"

text \<open>\<open>Array.prototype.map\<close> with a callback that may throw: the first throw ends it.\<close>

fun map_throwing :: "('a \<Rightarrow> string + 'b) \<Rightarrow> 'a list \<Rightarrow> string + 'b list" where
  "map_throwing f [] = Inr []"
| "map_throwing f (x # xs) =
     (case f x of
        Inl e \<Rightarrow> Inl e
      | Inr y \<Rightarrow> (case map_throwing f xs of Inl e \<Rightarrow> Inl e | Inr ys \<Rightarrow> Inr (y # ys)))"

definition startsWith :: "string \<Rightarrow> string \<Rightarrow> bool" where
  "startsWith s p \<longleftrightarrow> take (length p) s = p"

text \<open>
  \<open>new URL(source).hostname\<close> belongs to the platform, not to the repository. The
  parser is the parameter \<open>hostname_of\<close>: \<open>None\<close> where the constructor throws its
  \<open>TypeError\<close>, the host name otherwise.
\<close>

definition source_reference :: "(string \<Rightarrow> string option) \<Rightarrow> string \<Rightarrow> string + SourceReference" where
  "source_reference hostname_of source =
     (let isUrl = startsWith source ''http'' in
      if isUrl then
        (case hostname_of source of
           None \<Rightarrow> Inl ''Invalid URL''
         | Some h \<Rightarrow> Inr \<lparr>url = source, title = h, relevance = ''primary''\<rparr>)
      else Inr \<lparr>url = [], title = source, relevance = ''primary''\<rparr>)"

definition deduplicateSources ::
  "(string \<Rightarrow> string option) \<Rightarrow> string list \<Rightarrow> string + SourceReference list" where
  "deduplicateSources hostname_of srcs = map_throwing (source_reference hostname_of) (unique srcs)"


section \<open>Notions of the specification\<close>

text \<open>
  The state of a step authorization, read off the three flags of a \<open>StepPayment\<close>.
\<close>

datatype StepState = Unauthorized | Authorized | Confirmed | Refunded

definition stepState :: "StepPayment \<Rightarrow> StepState" where
  "stepState p =
     (if \<not> authorized p then Unauthorized
      else if confirmed p then Confirmed
      else if refunded p then Refunded
      else Authorized)"

definition stateOf :: "X402PaymentGate \<Rightarrow> bytes32 \<Rightarrow> bytes32 \<Rightarrow> StepState" where
  "stateOf g sid k = stepState (stepPayments g sid k)"

fun step_move :: "StepState \<Rightarrow> StepState \<Rightarrow> bool" where
  "step_move Unauthorized Authorized = True"
| "step_move Authorized Confirmed = True"
| "step_move Authorized Refunded = True"
| "step_move a b = False"

text \<open>The sum of the amounts of the confirmed steps of one session.\<close>

definition csum :: "(bytes32 \<Rightarrow> StepPayment) \<Rightarrow> nat" where
  "csum f = (\<Sum>k | confirmed (f k). unat (amount (f k)))"

definition confirmedSum :: "X402PaymentGate \<Rightarrow> bytes32 \<Rightarrow> nat" where
  "confirmedSum g sid = csum (stepPayments g sid)"

text \<open>
  What every reachable state of the gate satisfies: a confirmed step is authorized, a
  session without payer has no authorized step, a settled session has a payer, and an
  unsettled session's \<open>totalSpent\<close> is the sum of its confirmed amounts.
\<close>

definition ledger_inv :: "X402PaymentGate \<Rightarrow> bool" where
  "ledger_inv g \<longleftrightarrow>
     (\<forall>sid k. confirmed (stepPayments g sid k) \<longrightarrow> authorized (stepPayments g sid k)) \<and>
     (\<forall>sid k. payer (sessions g sid) = 0 \<longrightarrow> \<not> authorized (stepPayments g sid k)) \<and>
     (\<forall>sid. settled (sessions g sid) \<longrightarrow> payer (sessions g sid) \<noteq> 0) \<and>
     (\<forall>sid. \<not> settled (sessions g sid) \<longrightarrow>
        unat (totalSpent (sessions g sid)) = confirmedSum g sid)"

text \<open>The net change of an account's balance between two token states.\<close>

definition balance_change :: "MockERC20 \<Rightarrow> MockERC20 \<Rightarrow> address \<Rightarrow> int" where
  "balance_change t t' a = int (unat (balanceOf t' a)) - int (unat (balanceOf t a))"

section \<open>Concrete deployments, plans and worlds\<close>

definition payerA :: address where "payerA = 0xCAFE"
definition operatorA :: address where "operatorA = 0xBEEF"
definition gateA :: address where "gateA = 0x6A7E"

text \<open>The payer holds 10 tokens and has approved the gate for all of them.\<close>

definition token0 :: MockERC20 where
  "token0 = \<lparr>totalSupply = 10, balanceOf = (\<lambda>_. 0)(payerA := 10),
             allowance = (\<lambda>_ _. 0)(payerA := (\<lambda>_. 0)(gateA := 10))\<rparr>"

definition gate0 :: X402PaymentGate where
  "gate0 = constructor token0 gateA operatorA"

text \<open>
  Five transactions on a budget of 5: two steps of 3 are authorized one after the
  other, then both are confirmed.
\<close>

definition overspend_txs :: "(address \<times> call) list" where
  "overspend_txs =
     [(payerA, LockBudget 1 5 2),
      (operatorA, AuthorizePayment 1 10 3),
      (operatorA, AuthorizePayment 1 11 3),
      (operatorA, ConfirmExecution 1 10),
      (operatorA, ConfirmExecution 1 11)]"

text \<open>A session settled at 3 with no step ever confirmed.\<close>

definition settle_txs :: "(address \<times> call) list" where
  "settle_txs = [(payerA, LockBudget 1 5 2), (operatorA, SettleBudget 1 3)]"

text \<open>One step of 3 authorized and confirmed on a budget of 5.\<close>

definition confirm_txs :: "(address \<times> call) list" where
  "confirm_txs =
     [(payerA, LockBudget 1 5 2),
      (operatorA, AuthorizePayment 1 10 3),
      (operatorA, ConfirmExecution 1 10)]"

text \<open>One step of 3 authorized, not yet confirmed or refunded.\<close>

definition auth_txs :: "(address \<times> call) list" where
  "auth_txs = [(payerA, LockBudget 1 5 2), (operatorA, AuthorizePayment 1 10 3)]"

text \<open>The same session, then settled at 3.\<close>

definition settled_txs :: "(address \<times> call) list" where
  "settled_txs = confirm_txs @ [(operatorA, SettleBudget 1 3)]"


text \<open>
  Scenario B of the specification: three steps estimated at 0.3 each, a budget of 0.5,
  and a world in which every tool call succeeds.
\<close>

definition no_config :: ToolConfig where
  "no_config = \<lparr>anthropic_config = None, tavily_config = None, blockchain_rpc_config = None\<rparr>"

definition step_B :: "string \<Rightarrow> nat \<Rightarrow> ToolType \<Rightarrow> Step" where
  "step_B name i t =
     \<lparr>stp_id = name, stp_index = i, description = ''look it up'', tool = t,
      tool_config = no_config, estimated_cost_usd = 3 / 10, depends_on = []\<rparr>"

definition plan_B :: ExecutionPlan where
  "plan_B =
     \<lparr>session_id = ''session-B'', query = ''what is the TVL?'',
      steps = [step_B ''step_0'' 0 tavily, step_B ''step_1'' 1 tavily, step_B ''step_2'' 2 tavily],
      step_count = 3, total_estimated_cost = 9 / 10, max_budget = 1 / 2\<rparr>"

definition world_ok :: World where
  "world_ok =
     \<lparr>messages_create = (\<lambda>_ _ _ _ _. Inr [TextBlock ''fine'']),
      fetch_tavily = (\<lambda>_ _ _ _.
        Inr \<lparr>ok = True, http_status = ''200'', statusText = ''OK'',
             json = Inr \<lparr>answer = ''42'', tavily_results = []\<rparr>\<rparr>),
      fetch_rpc = (\<lambda>_ _ _.
        Inr \<lparr>ok = True, http_status = ''200'', statusText = ''OK'',
             json = Inr \<lparr>rpc_error = None, rpc_result = ''0x0''\<rparr>\<rparr>)\<rparr>"

text \<open>The same world with the search service down.\<close>

definition world_search_down :: World where
  "world_search_down =
     world_ok\<lparr>fetch_tavily := (\<lambda>_ _ _ _.
        Inr \<lparr>ok = False, http_status = ''503'', statusText = ''Service Unavailable'',
             json = Inl ''Unexpected end of JSON input''\<rparr>)\<rparr>"

definition plan_C :: ExecutionPlan where
  "plan_C =
     \<lparr>session_id = ''session-C'', query = ''what is the TVL?'',
      steps = [step_B ''step_0'' 0 tavily, step_B ''step_1'' 1 reasoning],
      step_count = 2, total_estimated_cost = 6 / 10, max_budget = 1\<rparr>"

definition cfg_sim :: ExecutorConfig where
  "cfg_sim =
     \<lparr>anthropicApiKey = ''key-a'', tavilyApiKey = ''key-t'', rpcUrl = ''http://localhost:8545'',
      x402ContractAddress = [], privateKey = []\<rparr>"

definition cfg_chain :: ExecutorConfig where
  "cfg_chain = cfg_sim\<lparr>x402ContractAddress := ''0x5FbDB2315678afecb367f032d93F642f64180aa3''\<rparr>"

text \<open>
  A contract that enforces the budget of Scenario B: once the first step has been
  confirmed it rejects the next authorization; every other call goes through as the
  executor's stub does.
\<close>

definition refusing_call :: contract_call where
  "refusing_call mth args sessionId ex =
     (if mth = ''authorizePayment'' \<and> PaymentConfirmed ''step_0'' \<in> set (console ex)
      then Inl ''X402: exceeds budget''
      else Inr (callContract mth args sessionId ex))"


text \<open>
  The URL parser belongs to the platform. For the closed statements below a fragment
  of it is enough. \<open>basic_hostname\<close> accepts
  \<open>http://\<close> or \<open>https://\<close> followed by a host made of lower-case letters and dots
  (not starting with a dot) up to the first \<open>/\<close>, \<open>?\<close> or \<open>#\<close>, and returns that
  host, as the platform does; it answers \<open>None\<close> on every other string. Among those
  the platform certainly throws on a string without a colon (it has no scheme); for
  the rest nothing is claimed, and every general statement quantifies over the parser.
\<close>

definition host_char :: "char \<Rightarrow> bool" where
  "host_char c \<longleftrightarrow> c \<in> set ''abcdefghijklmnopqrstuvwxyz.''"

definition basic_hostname :: "string \<Rightarrow> string option" where
  "basic_hostname s =
     (let rest = (if startsWith s ''https://'' then Some (drop 8 s)
                  else if startsWith s ''http://'' then Some (drop 7 s)
                  else None)
      in case rest of
           None \<Rightarrow> None
         | Some r \<Rightarrow>
             let h = takeWhile (\<lambda>c. c \<notin> set ''/?#'') r
             in if h \<noteq> [] \<and> list_all host_char h \<and> hd h \<noteq> CHR ''.'' then Some h else None)"


section \<open>Properties of the payment ledger\<close>

subsection \<open>Auxiliary facts\<close>

lemmas ledger_eval =
  run_def transact_def gate0_def constructor_def token0_def payerA_def operatorA_def gateA_def
  lockBudget_def authorizePayment_def confirmExecution_def refund_def settleBudget_def
  operator_call_def onlyOperator_def sessionExists_def sessionNotSettled_def transferFrom_def
  transfer_def checked_add_def checked_sub_def zero_Session_def zero_StepPayment_def Let_def

lemma csum_zero: "(\<And>k. \<not> confirmed (f k)) \<Longrightarrow> csum f = 0"
  by (simp add: csum_def)

lemma csum_upd_flag:
  assumes "confirmed p = confirmed (f k)" "amount p = amount (f k)"
  shows "csum (f(k := p)) = csum f"
proof -
  have "{k'. confirmed ((f(k := p)) k')} = {k'. confirmed (f k')}"
    using assms by auto
  moreover have "\<And>k'. unat (amount ((f(k := p)) k')) = unat (amount (f k'))"
    using assms by auto
  ultimately show ?thesis
    unfolding csum_def by simp
qed

lemma csum_upd_same:
  assumes "\<not> confirmed (f k)" "\<not> confirmed p"
  shows "csum (f(k := p)) = csum f"
proof -
  have "{k'. confirmed ((f(k := p)) k')} = {k'. confirmed (f k')}"
    using assms by auto
  moreover have "\<And>k'. confirmed (f k') \<Longrightarrow> (f(k := p)) k' = f k'"
    using assms by auto
  ultimately show ?thesis
    unfolding csum_def by (auto intro: sum.cong)
qed

lemma csum_upd_confirm:
  assumes "\<not> confirmed (f k)" "confirmed p"
  shows "csum (f(k := p)) = csum f + unat (amount p)"
proof -
  let ?S = "{k'. confirmed (f k')}"
  have S: "{k'. confirmed ((f(k := p)) k')} = insert k ?S"
    using assms by auto
  have k: "k \<notin> ?S" using assms by simp
  have "(\<Sum>k' \<in> insert k ?S. unat (amount ((f(k := p)) k')))
        = unat (amount p) + (\<Sum>k' \<in> ?S. unat (amount ((f(k := p)) k')))"
    using k by simp
  also have "(\<Sum>k' \<in> ?S. unat (amount ((f(k := p)) k'))) = (\<Sum>k' \<in> ?S. unat (amount (f k')))"
    using k by (intro sum.cong) auto
  finally show ?thesis
    unfolding csum_def S by simp
qed

lemma operator_call_None:
  "operator_call sender sid g = None \<longleftrightarrow>
     sender = operator g \<and> payer (sessions g sid) \<noteq> 0 \<and> \<not> settled (sessions g sid)"
  by (simp add: operator_call_def onlyOperator_def sessionExists_def sessionNotSettled_def)

lemma checked_add_Inr:
  "checked_add a b = Inr c \<longleftrightarrow> unat a + unat b < 2 ^ 256 \<and> c = a + b"
  by (auto simp: checked_add_def)

lemma checked_add_unat: "checked_add a b = Inr c \<Longrightarrow> unat c = unat a + unat b"
  unfolding checked_add_def using unat_add_lem [of a b] by (auto split: if_splits)

lemma lockBudget_Inr:
  assumes "lockBudget sender sid amt n g = Inr g'"
  shows "payer (sessions g sid) = 0 \<and> 0 < amt \<and> 0 < n \<and>
         (\<exists>tok. transferFrom (this g) sender (this g) amt (paymentToken g) = Inr tok \<and>
           g' = g\<lparr>paymentToken := tok,
                  sessions := (sessions g)(sid :=
                    \<lparr>payer = sender, totalLocked = amt, totalSpent = 0, stepCount = n,
                     settled = False\<rparr>)\<rparr>)"
  using assms by (auto simp: lockBudget_def split: if_splits sum.splits)

lemma authorizePayment_Inr:
  assumes "authorizePayment sender sid k amt g = Inr g'"
  shows "operator_call sender sid g = None \<and>
         unat (totalSpent (sessions g sid)) + unat amt \<le> unat (totalLocked (sessions g sid)) \<and>
         \<not> authorized (stepPayments g sid k) \<and>
         g' = g\<lparr>stepPayments := (stepPayments g)(sid := (stepPayments g sid)(k :=
                 \<lparr>amount = amt, authorized = True, confirmed = False, refunded = False\<rparr>))\<rparr>"
  using assms
  by (auto simp: authorizePayment_def word_le_nat_alt dest!: checked_add_unat
           split: option.splits sum.splits if_splits)

lemma confirmExecution_Inr:
  assumes "confirmExecution sender sid k g = Inr g'"
  shows "operator_call sender sid g = None \<and>
         authorized (stepPayments g sid k) \<and> \<not> confirmed (stepPayments g sid k) \<and>
         \<not> refunded (stepPayments g sid k) \<and>
         (\<exists>newSpent. unat newSpent = unat (totalSpent (sessions g sid)) + unat (amount (stepPayments g sid k)) \<and>
         g' = g\<lparr>stepPayments := (stepPayments g)(sid := (stepPayments g sid)(k :=
                   (stepPayments g sid k)\<lparr>confirmed := True\<rparr>)),
                sessions := (sessions g)(sid := (sessions g sid)\<lparr>totalSpent := newSpent\<rparr>)\<rparr>)"
  using assms
  by (auto simp: confirmExecution_def Let_def dest!: checked_add_unat
           split: option.splits sum.splits if_splits)

lemma refund_Inr:
  assumes "refund sender sid k g = Inr g'"
  shows "operator_call sender sid g = None \<and>
         authorized (stepPayments g sid k) \<and> \<not> confirmed (stepPayments g sid k) \<and>
         \<not> refunded (stepPayments g sid k) \<and>
         g' = g\<lparr>stepPayments := (stepPayments g)(sid := (stepPayments g sid)(k :=
                   (stepPayments g sid k)\<lparr>refunded := True\<rparr>))\<rparr>"
  using assms
  by (auto simp: refund_def Let_def split: option.splits sum.splits if_splits)

lemma settleBudget_Inr:
  assumes "settleBudget sender sid spent g = Inr g'"
  shows "operator_call sender sid g = None \<and> spent \<le> totalLocked (sessions g sid) \<and>
         (\<exists>tok. g' = g\<lparr>paymentToken := tok,
                sessions := (sessions g)(sid := (sessions g sid)\<lparr>totalSpent := spent, settled := True\<rparr>)\<rparr>)"
  using assms
  by (auto simp: settleBudget_def Let_def split: option.splits sum.splits if_splits)


lemma ledger_inv_constructor: "ledger_inv (constructor tok self opr)"
  by (simp add: ledger_inv_def constructor_def zero_Session_def zero_StepPayment_def
        confirmedSum_def csum_def)

lemma lockBudget_inv:
  assumes "lockBudget sender sid amt n g = Inr g'" "ledger_inv g"
  shows "ledger_inv g'"
proof -
  from lockBudget_Inr [OF assms(1)] obtain tok where
    p: "payer (sessions g sid) = 0" and
    g': "g' = g\<lparr>paymentToken := tok,
                  sessions := (sessions g)(sid :=
                    \<lparr>payer = sender, totalLocked = amt, totalSpent = 0, stepCount = n,
                     settled = False\<rparr>)\<rparr>"
    by blast
  from p assms(2) have "\<And>k. \<not> confirmed (stepPayments g sid k)"
    unfolding ledger_inv_def by blast
  then have "csum (stepPayments g sid) = 0" by (rule csum_zero)
  with assms(2) p show ?thesis
    unfolding ledger_inv_def g' confirmedSum_def by auto
qed

lemma authorizePayment_inv:
  assumes "authorizePayment sender sid k amt g = Inr g'" "ledger_inv g"
  shows "ledger_inv g'"
proof -
  note a = authorizePayment_Inr [OF assms(1)]
  from a assms(2) have nc: "\<not> confirmed (stepPayments g sid k)"
    unfolding ledger_inv_def by blast
  have "csum ((stepPayments g sid)(k := \<lparr>amount = amt, authorized = True, confirmed = False,
           refunded = False\<rparr>)) = csum (stepPayments g sid)"
    using nc by (intro csum_upd_same) simp_all
  with a assms(2) show ?thesis
    unfolding ledger_inv_def confirmedSum_def operator_call_None by auto
qed

lemma confirmExecution_inv:
  assumes "confirmExecution sender sid k g = Inr g'" "ledger_inv g"
  shows "ledger_inv g'"
proof -
  from confirmExecution_Inr [OF assms(1)] obtain newSpent where
    oc: "operator_call sender sid g = None" and
    au: "authorized (stepPayments g sid k)" and
    nc: "\<not> confirmed (stepPayments g sid k)" and
    ns: "unat newSpent = unat (totalSpent (sessions g sid)) + unat (amount (stepPayments g sid k))" and
    g': "g' = g\<lparr>stepPayments := (stepPayments g)(sid := (stepPayments g sid)(k :=
                   (stepPayments g sid k)\<lparr>confirmed := True\<rparr>)),
                sessions := (sessions g)(sid := (sessions g sid)\<lparr>totalSpent := newSpent\<rparr>)\<rparr>"
    by blast
  have "csum ((stepPayments g sid)(k := (stepPayments g sid k)\<lparr>confirmed := True\<rparr>))
        = csum (stepPayments g sid) + unat (amount (stepPayments g sid k))"
    using nc by (simp add: csum_upd_confirm)
  with oc au ns assms(2) show ?thesis
    unfolding ledger_inv_def confirmedSum_def operator_call_None g' by auto
qed

lemma refund_inv:
  assumes "refund sender sid k g = Inr g'" "ledger_inv g"
  shows "ledger_inv g'"
proof -
  note a = refund_Inr [OF assms(1)]
  have "csum ((stepPayments g sid)(k := (stepPayments g sid k)\<lparr>refunded := True\<rparr>))
        = csum (stepPayments g sid)"
    by (intro csum_upd_flag) simp_all
  with a assms(2) show ?thesis
    unfolding ledger_inv_def confirmedSum_def operator_call_None by auto
qed

lemma settleBudget_inv:
  assumes "settleBudget sender sid spent g = Inr g'" "ledger_inv g"
  shows "ledger_inv g'"
proof -
  from settleBudget_Inr [OF assms(1)] obtain tok where
    oc: "operator_call sender sid g = None" and
    g': "g' = g\<lparr>paymentToken := tok,
                sessions := (sessions g)(sid := (sessions g sid)\<lparr>totalSpent := spent, settled := True\<rparr>)\<rparr>"
    by blast
  with assms(2) show ?thesis
    unfolding ledger_inv_def confirmedSum_def operator_call_None g' by auto
qed

lemma exec_inv: "exec sender c g = Inr g' \<Longrightarrow> ledger_inv g \<Longrightarrow> ledger_inv g'"
  by (cases c)
     (auto dest: lockBudget_inv authorizePayment_inv confirmExecution_inv refund_inv
        settleBudget_inv)

lemma transact_inv: "ledger_inv g \<Longrightarrow> ledger_inv (transact g tx)"
  by (auto simp: transact_def split: sum.splits dest: exec_inv)

lemma run_snoc: "run (txs @ [tx]) g = transact (run txs g) tx"
  by (simp add: run_def)

lemma run_app: "run (txs @ txs') g = run txs' (run txs g)"
  by (simp add: run_def)

lemma run_inv: "ledger_inv g \<Longrightarrow> ledger_inv (run txs g)"
  by (induction txs rule: rev_induct) (simp_all add: run_snoc transact_inv, simp add: run_def)

lemma settleBudget_confirmedSum:
  "settleBudget sender sid spent g = Inr g' \<Longrightarrow> confirmedSum g' sid' = confirmedSum g sid'"
  by (auto dest!: settleBudget_Inr simp: confirmedSum_def)

lemma confirm_txs_state:
  "\<not> settled (sessions (run confirm_txs gate0) 1) \<and>
   totalSpent (sessions (run confirm_txs gate0) 1) = 3"
  by (simp add: confirm_txs_def ledger_eval)

lemma settle_after_confirm:
  "\<exists>g'. settleBudget operatorA 1 2 (run confirm_txs gate0) = Inr g'"
  by (simp add: confirm_txs_def ledger_eval)

subsection \<open>Spending and the locked budget\<close>

text \<open>
  Claim C1 says that \<open>totalSpent \<le> totalLocked\<close> holds for every session at every
  observable point, and that no \<open>confirmExecution\<close> can push \<open>totalSpent\<close> above
  \<open>totalLocked\<close>. The code checks the budget when a step is authorized, against
  \<open>totalSpent\<close> alone: an authorization reserves nothing. With a budget of 5, two
  steps of 3 are both authorized (each time \<open>0 + 3 \<le> 5\<close>) and both confirmed, which
  leaves \<open>totalSpent = 6\<close> above \<open>totalLocked = 5\<close>; \<open>getRemainingBudget\<close> then
  panics on the underflow.
\<close>

theorem overspend_by_two_authorizations:
  "totalLocked (sessions (run overspend_txs gate0) 1) = 5 \<and>
   totalSpent (sessions (run overspend_txs gate0) 1) = 6 \<and>
   \<not> totalSpent (sessions (run overspend_txs gate0) 1)
        \<le> totalLocked (sessions (run overspend_txs gate0) 1) \<and>
   getRemainingBudget 1 (run overspend_txs gate0) = Inl Panic"
  by (simp add: overspend_txs_def ledger_eval getRemainingBudget_def)

subsection \<open>Spending and the confirmed steps\<close>

text \<open>
  Claim C2 says that \<open>totalSpent\<close> equals the sum of the amounts of the confirmed
  steps after every ledger operation, \<open>settleBudget\<close> included. It fails for
  \<open>settleBudget\<close>: a session locked at 5 and settled with the caller's value 3, no
  step confirmed, has \<open>totalSpent = 3\<close> and a confirmed sum of 0.
\<close>

theorem settle_overwrites_totalSpent:
  "unat (totalSpent (sessions (run settle_txs gate0) 1)) = 3 \<and>
   confirmedSum (run settle_txs gate0) 1 = 0"
  by (simp add: settle_txs_def ledger_eval confirmedSum_def csum_def)

text \<open>
  Claim C2, amended: in every state reached from deployment by any sequence of calls
  (successful or rejected), a session that is not settled has \<open>totalSpent\<close> equal to
  the sum of the amounts of its confirmed steps; a successful \<open>settleBudget\<close> stores
  the caller's value as \<open>totalSpent\<close> and leaves the confirmed amounts as they were.
\<close>

theorem totalSpent_is_confirmed_sum_until_settled:
  "(\<not> settled (sessions (run txs (constructor tok self opr)) sid) \<longrightarrow>
      unat (totalSpent (sessions (run txs (constructor tok self opr)) sid))
        = confirmedSum (run txs (constructor tok self opr)) sid) \<and>
   (settleBudget sender sid spent g = Inr g' \<longrightarrow>
      totalSpent (sessions g' sid) = spent \<and> confirmedSum g' sid = confirmedSum g sid)"
proof -
  have "ledger_inv (run txs (constructor tok self opr))"
    by (rule run_inv) (rule ledger_inv_constructor)
  then have "\<not> settled (sessions (run txs (constructor tok self opr)) sid) \<longrightarrow>
      unat (totalSpent (sessions (run txs (constructor tok self opr)) sid))
        = confirmedSum (run txs (constructor tok self opr)) sid"
    unfolding ledger_inv_def by blast
  moreover have "settleBudget sender sid spent g = Inr g' \<longrightarrow>
      totalSpent (sessions g' sid) = spent \<and> confirmedSum g' sid = confirmedSum g sid"
  proof
    assume a: "settleBudget sender sid spent g = Inr g'"
    from settleBudget_Inr [OF a] have "totalSpent (sessions g' sid) = spent" by auto
    with settleBudget_confirmedSum [OF a]
    show "totalSpent (sessions g' sid) = spent \<and> confirmedSum g' sid = confirmedSum g sid"
      by simp
  qed
  ultimately show ?thesis by blast
qed

theorem totalSpent_is_confirmed_sum_witness:
  "\<not> settled (sessions (run confirm_txs gate0) 1) \<and>
   confirmedSum (run confirm_txs gate0) 1 = 3 \<and>
   (\<exists>g'. settleBudget operatorA 1 2 (run confirm_txs gate0) = Inr g' \<and>
      totalSpent (sessions g' 1) = 2 \<and> confirmedSum g' 1 = 3)"
proof -
  note t = totalSpent_is_confirmed_sum_until_settled
             [of confirm_txs token0 gateA operatorA 1 operatorA 2 "run confirm_txs gate0"]
  have s: "\<not> settled (sessions (run confirm_txs gate0) 1)"
    and v: "totalSpent (sessions (run confirm_txs gate0) 1) = 3"
    using confirm_txs_state by simp_all
  from t s v have c: "confirmedSum (run confirm_txs gate0) 1 = 3"
    by (simp add: gate0_def)
  obtain g' where g': "settleBudget operatorA 1 2 (run confirm_txs gate0) = Inr g'"
    using settle_after_confirm by blast
  with t [of g'] c have "totalSpent (sessions g' 1) = 2 \<and> confirmedSum g' 1 = 3"
    by simp
  with s c g' show ?thesis by blast
qed

subsection \<open>The life of a step authorization\<close>

lemma transact_rejected: "isl (exec sender c g) \<Longrightarrow> transact g (sender, c) = g"
  by (cases "exec sender c g") (simp_all add: transact_def)

lemma upd2_other: "(s, j) \<noteq> (sid, k) \<Longrightarrow> (f(sid := (f sid)(k := p))) s j = f s j"
  by auto

lemma authorizePayment_move:
  assumes "authorizePayment sender sid k amt g = Inr g'"
  shows "stateOf g sid k = Unauthorized \<and> stateOf g' sid k = Authorized \<and>
         (\<forall>s j. (s, j) \<noteq> (sid, k) \<longrightarrow> stateOf g' s j = stateOf g s j)"
proof -
  let ?p = "\<lparr>amount = amt, authorized = True, confirmed = False, refunded = False\<rparr>"
  from authorizePayment_Inr [OF assms]
  have n: "\<not> authorized (stepPayments g sid k)"
    and g': "stepPayments g' = (stepPayments g)(sid := (stepPayments g sid)(k := ?p))"
    by auto
  have "\<And>s j. (s, j) \<noteq> (sid, k) \<Longrightarrow> stepPayments g' s j = stepPayments g s j"
    unfolding g' by (rule upd2_other)
  then have "\<And>s j. (s, j) \<noteq> (sid, k) \<Longrightarrow> stateOf g' s j = stateOf g s j"
    by (simp add: stateOf_def)
  moreover have "stateOf g' sid k = Authorized"
    unfolding stateOf_def g' by (simp add: stepState_def)
  moreover have "stateOf g sid k = Unauthorized"
    using n by (simp add: stateOf_def stepState_def)
  ultimately show ?thesis by blast
qed

lemma confirmExecution_move:
  assumes "confirmExecution sender sid k g = Inr g'"
  shows "stateOf g sid k = Authorized \<and> stateOf g' sid k = Confirmed \<and>
         (\<forall>s j. (s, j) \<noteq> (sid, k) \<longrightarrow> stateOf g' s j = stateOf g s j)"
proof -
  let ?p = "(stepPayments g sid k)\<lparr>confirmed := True\<rparr>"
  from confirmExecution_Inr [OF assms]
  have n: "authorized (stepPayments g sid k)" "\<not> confirmed (stepPayments g sid k)"
      "\<not> refunded (stepPayments g sid k)"
    and g': "stepPayments g' = (stepPayments g)(sid := (stepPayments g sid)(k := ?p))"
    by auto
  have "\<And>s j. (s, j) \<noteq> (sid, k) \<Longrightarrow> stepPayments g' s j = stepPayments g s j"
    unfolding g' by (rule upd2_other)
  then have "\<And>s j. (s, j) \<noteq> (sid, k) \<Longrightarrow> stateOf g' s j = stateOf g s j"
    by (simp add: stateOf_def)
  moreover have "stateOf g' sid k = Confirmed"
    unfolding stateOf_def g' using n by (simp add: stepState_def)
  moreover have "stateOf g sid k = Authorized"
    using n by (simp add: stateOf_def stepState_def)
  ultimately show ?thesis by blast
qed

lemma refund_move:
  assumes "refund sender sid k g = Inr g'"
  shows "stateOf g sid k = Authorized \<and> stateOf g' sid k = Refunded \<and>
         (\<forall>s j. (s, j) \<noteq> (sid, k) \<longrightarrow> stateOf g' s j = stateOf g s j)"
proof -
  let ?p = "(stepPayments g sid k)\<lparr>refunded := True\<rparr>"
  from refund_Inr [OF assms]
  have n: "authorized (stepPayments g sid k)" "\<not> confirmed (stepPayments g sid k)"
      "\<not> refunded (stepPayments g sid k)"
    and g': "stepPayments g' = (stepPayments g)(sid := (stepPayments g sid)(k := ?p))"
    by auto
  have "\<And>s j. (s, j) \<noteq> (sid, k) \<Longrightarrow> stepPayments g' s j = stepPayments g s j"
    unfolding g' by (rule upd2_other)
  then have "\<And>s j. (s, j) \<noteq> (sid, k) \<Longrightarrow> stateOf g' s j = stateOf g s j"
    by (simp add: stateOf_def)
  moreover have "stateOf g' sid k = Refunded"
    unfolding stateOf_def g' using n by (simp add: stepState_def)
  moreover have "stateOf g sid k = Authorized"
    using n by (simp add: stateOf_def stepState_def)
  ultimately show ?thesis by blast
qed

lemma lockBudget_steps:
  "lockBudget sender sid amt n g = Inr g' \<Longrightarrow> stepPayments g' = stepPayments g"
  by (auto dest!: lockBudget_Inr)

lemma settleBudget_steps:
  "settleBudget sender sid spent g = Inr g' \<Longrightarrow> stepPayments g' = stepPayments g"
  by (auto dest!: settleBudget_Inr)

lemma exec_move:
  assumes "exec sender c g = Inr g'"
  shows "stateOf g' sid k = stateOf g sid k \<or> step_move (stateOf g sid k) (stateOf g' sid k)"
proof (cases c)
  case (LockBudget s a n)
  with assms show ?thesis by (auto dest: lockBudget_steps simp: stateOf_def)
next
  case (AuthorizePayment s j a)
  with assms have "authorizePayment sender s j a g = Inr g'" by simp
  from authorizePayment_move [OF this] show ?thesis
    by (cases "(sid, k) = (s, j)") auto
next
  case (ConfirmExecution s j)
  with assms have "confirmExecution sender s j g = Inr g'" by simp
  from confirmExecution_move [OF this] show ?thesis
    by (cases "(sid, k) = (s, j)") auto
next
  case (Refund s j)
  with assms have "refund sender s j g = Inr g'" by simp
  from refund_move [OF this] show ?thesis
    by (cases "(sid, k) = (s, j)") auto
next
  case (SettleBudget s a)
  with assms show ?thesis by (auto dest: settleBudget_steps simp: stateOf_def)
qed

lemma transact_move:
  "stateOf (transact g tx) sid k = stateOf g sid k \<or>
   step_move (stateOf g sid k) (stateOf (transact g tx) sid k)"
  by (cases "exec (fst tx) (snd tx) g") (auto simp: transact_def dest: exec_move)

lemma step_move_terminal: "step_move a b \<Longrightarrow> a \<noteq> Confirmed \<and> a \<noteq> Refunded \<and> b \<noteq> Unauthorized"
  by (cases a; cases b) simp_all

lemma run_terminal:
  "stateOf g sid k \<in> {Confirmed, Refunded} \<Longrightarrow> stateOf (run txs g) sid k = stateOf g sid k"
proof (induction txs rule: rev_induct)
  case Nil
  then show ?case by (simp add: run_def)
next
  case (snoc tx txs)
  with transact_move [of "run txs g" tx sid k] show ?case
    by (auto simp: run_snoc dest: step_move_terminal)
qed

lemma run_not_Unauthorized:
  "stateOf g sid k \<noteq> Unauthorized \<Longrightarrow> stateOf (run txs g) sid k \<noteq> Unauthorized"
proof (induction txs rule: rev_induct)
  case Nil
  then show ?case by (simp add: run_def)
next
  case (snoc tx txs)
  with transact_move [of "run txs g" tx sid k] show ?case
    by (auto simp: run_snoc dest: step_move_terminal)
qed

lemma auth_txs_state: "stateOf (run auth_txs gate0) 1 10 = Authorized"
  by (simp add: auth_txs_def ledger_eval stateOf_def stepState_def)

lemma confirm_txs_step: "stateOf (run confirm_txs gate0) 1 10 = Confirmed"
  by (simp add: confirm_txs_def ledger_eval stateOf_def stepState_def)

lemma not_Inr_isl: "(\<And>y. x \<noteq> Inr y) \<Longrightarrow> isl x"
  by (cases x) auto


text \<open>
  Claim C3: a step authorization moves only along
  \<open>Unauthorized \<rightarrow> Authorized \<rightarrow> Confirmed | Refunded\<close>. Whatever the transaction,
  the state of a step stays or makes one of these three moves; \<open>authorizePayment\<close>
  succeeds only on an unauthorized step, \<open>confirmExecution\<close> and \<open>refund\<close> only on an
  authorized one; a step that has left \<open>Unauthorized\<close> never returns to it (so a second
  authorization, also of a refunded step, is rejected), \<open>Confirmed\<close> and \<open>Refunded\<close>
  are never left; and a rejected call leaves the whole state of the gate, steps and
  sessions, as it was.
\<close>

theorem step_authorization_lifecycle:
  "(stateOf (transact g (sender, c)) sid k = stateOf g sid k \<or>
      step_move (stateOf g sid k) (stateOf (transact g (sender, c)) sid k)) \<and>
   (authorizePayment sender sid k amt g = Inr g1 \<longrightarrow>
      stateOf g sid k = Unauthorized \<and> stateOf g1 sid k = Authorized) \<and>
   (confirmExecution sender sid k g = Inr g2 \<longrightarrow>
      stateOf g sid k = Authorized \<and> stateOf g2 sid k = Confirmed) \<and>
   (refund sender sid k g = Inr g3 \<longrightarrow>
      stateOf g sid k = Authorized \<and> stateOf g3 sid k = Refunded) \<and>
   (stateOf g sid k \<noteq> Unauthorized \<longrightarrow> stateOf (run txs g) sid k \<noteq> Unauthorized) \<and>
   (stateOf g sid k \<in> {Confirmed, Refunded} \<longrightarrow>
      stateOf (run txs g) sid k = stateOf g sid k) \<and>
   (isl (exec sender c g) \<longrightarrow> transact g (sender, c) = g)"
  using transact_move [of g "(sender, c)" sid k]
    authorizePayment_move [of sender sid k amt g g1]
    confirmExecution_move [of sender sid k g g2]
    refund_move [of sender sid k g g3]
    run_not_Unauthorized [of g sid k txs] run_terminal [of g sid k txs]
    transact_rejected [of sender c g]
  by blast

theorem step_authorization_lifecycle_witness:
  "stateOf (run auth_txs gate0) 1 10 = Authorized \<and>
   isl (authorizePayment operatorA 1 10 3 (run auth_txs gate0)) \<and>
   transact (run auth_txs gate0) (operatorA, AuthorizePayment 1 10 3) = run auth_txs gate0 \<and>
   stateOf (run confirm_txs gate0) 1 10 = Confirmed \<and>
   isl (confirmExecution operatorA 1 10 (run confirm_txs gate0)) \<and>
   isl (refund operatorA 1 10 (run confirm_txs gate0)) \<and>
   stateOf (run [(operatorA, Refund 1 10), (operatorA, AuthorizePayment 1 10 1)]
              (run confirm_txs gate0)) 1 10 = Confirmed"
proof -
  have a: "stateOf (run auth_txs gate0) 1 10 = Authorized" by (rule auth_txs_state)
  have c: "stateOf (run confirm_txs gate0) 1 10 = Confirmed" by (rule confirm_txs_step)
  have 1: "isl (authorizePayment operatorA 1 10 3 (run auth_txs gate0))"
    using step_authorization_lifecycle [of "run auth_txs gate0" operatorA _ 1 10 3] a
    by (intro not_Inr_isl) auto
  have 2: "transact (run auth_txs gate0) (operatorA, AuthorizePayment 1 10 3) = run auth_txs gate0"
    using step_authorization_lifecycle [of "run auth_txs gate0" operatorA "AuthorizePayment 1 10 3"] 1
    by simp
  have 3: "isl (confirmExecution operatorA 1 10 (run confirm_txs gate0))"
    using step_authorization_lifecycle [of "run confirm_txs gate0" operatorA _ 1 10] c
    by (intro not_Inr_isl) auto
  have 4: "isl (refund operatorA 1 10 (run confirm_txs gate0))"
    using step_authorization_lifecycle [of "run confirm_txs gate0" operatorA _ 1 10] c
    by (intro not_Inr_isl) auto
  have 5: "stateOf (run [(operatorA, Refund 1 10), (operatorA, AuthorizePayment 1 10 1)]
              (run confirm_txs gate0)) 1 10 = Confirmed"
    using step_authorization_lifecycle [of "run confirm_txs gate0" _ _ 1 10] c by simp
  from a c 1 2 3 4 5 show ?thesis by blast
qed

subsection \<open>Settlement\<close>

lemma transfer_balance_change:
  assumes "transfer s to amt t = Inr t'"
  shows "balance_change t t' a =
           (if a = to then int (unat amt) else 0) - (if a = s then int (unat amt) else 0)"
proof -
  let ?b1 = "(balanceOf t)(s := balanceOf t s - amt)"
  from assms have le: "amt \<le> balanceOf t s"
    and ov: "unat (?b1 to) + unat amt < 2 ^ 256"
    and t': "balanceOf t' = ?b1(to := ?b1 to + amt)"
    by (auto simp: transfer_def Let_def checked_add_def split: if_splits)
  from le have sub: "unat (balanceOf t s - amt) = unat (balanceOf t s) - unat amt"
    and le': "unat amt \<le> unat (balanceOf t s)"
    by (simp_all add: unat_sub word_le_nat_alt)
  from ov have add: "unat (?b1 to + amt) = unat (?b1 to) + unat amt"
    using unat_add_lem [of "?b1 to" amt] by simp
  from sub le' have sub_i:
    "int (unat (balanceOf t s - amt)) = int (unat (balanceOf t s)) - int (unat amt)"
    by simp
  from add have add_i: "int (unat (?b1 to + amt)) = int (unat (?b1 to)) + int (unat amt)"
    by simp
  show ?thesis
  proof (cases "a = to")
    case True
    then show ?thesis
      using add_i sub_i unfolding balance_change_def t' by (cases "to = s") auto
  next
    case False
    then show ?thesis
      using sub_i unfolding balance_change_def t' by auto
  qed
qed

lemma balance_change_trans:
  "balance_change t t'' a = balance_change t t' a + balance_change t' t'' a"
  by (simp add: balance_change_def)

lemma balance_change_refl: "balance_change t t a = 0"
  by (simp add: balance_change_def)

lemma settleBudget_pays:
  assumes "settleBudget sender sid spent g = Inr g'"
  shows "balance_change (paymentToken g) (paymentToken g') a =
           (if a = payer (sessions g sid)
            then int (unat (totalLocked (sessions g sid) - spent)) else 0)
         + (if a = operator g then int (unat spent) else 0)
         - (if a = this g then int (unat (totalLocked (sessions g sid))) else 0)"
proof -
  let ?locked = "totalLocked (sessions g sid)"
  let ?r = "?locked - spent"
  let ?T1 = "if 0 < ?r then transfer (this g) (payer (sessions g sid)) ?r (paymentToken g)
             else Inr (paymentToken g)"
  from assms have le: "spent \<le> ?locked"
    by (auto dest!: settleBudget_Inr)
  from assms obtain tok1 where t1: "?T1 = Inr tok1"
    and t2: "(if 0 < spent then transfer (this g) (operator g) spent tok1 else Inr tok1)
               = Inr (paymentToken g')"
    by (auto simp: settleBudget_def Let_def split: option.splits sum.splits if_splits)
  have "unat ?r = unat ?locked - unat spent" and "unat spent \<le> unat ?locked"
    using le by (simp_all add: unat_sub word_le_nat_alt)
  then have r: "int (unat ?r) = int (unat ?locked) - int (unat spent)"
    by simp
  have c1: "balance_change (paymentToken g) tok1 a =
              (if a = payer (sessions g sid) then int (unat ?r) else 0)
            - (if a = this g then int (unat ?r) else 0)"
  proof (cases "0 < ?r")
    case True
    with t1 show ?thesis by (simp add: transfer_balance_change)
  next
    case False
    then have "?r = 0" by (simp add: word_neq_0_conv [symmetric])
    with t1 show ?thesis by (simp add: balance_change_refl)
  qed
  have c2: "balance_change tok1 (paymentToken g') a =
              (if a = operator g then int (unat spent) else 0)
            - (if a = this g then int (unat spent) else 0)"
  proof (cases "0 < spent")
    case True
    with t2 show ?thesis by (simp add: transfer_balance_change)
  next
    case False
    then have "spent = 0" by (simp add: word_neq_0_conv [symmetric])
    with t2 show ?thesis by (simp add: balance_change_refl)
  qed
  show ?thesis
    unfolding balance_change_trans [of "paymentToken g" "paymentToken g'" a tok1] c1 c2
    using r by auto
qed

lemma settleBudget_rejects:
  "settled (sessions g sid) \<or> payer (sessions g sid) = 0 \<or> totalLocked (sessions g sid) < spent
     \<Longrightarrow> isl (settleBudget sender sid spent g)"
  by (auto simp: settleBudget_def operator_call_def onlyOperator_def sessionExists_def
        sessionNotSettled_def Let_def)

lemma exec_settled:
  assumes "exec sender c g = Inr g'" "ledger_inv g" "settled (sessions g sid)"
  shows "settled (sessions g' sid)"
proof (cases c)
  case (LockBudget s a n)
  with assms(1) have l: "lockBudget sender s a n g = Inr g'" by simp
  from assms(2,3) have "payer (sessions g sid) \<noteq> 0" unfolding ledger_inv_def by blast
  with lockBudget_Inr [OF l] assms(3) show ?thesis by auto
next
  case (AuthorizePayment s j a)
  with assms show ?thesis by (auto dest!: authorizePayment_Inr)
next
  case (ConfirmExecution s j)
  with assms show ?thesis by (auto dest!: confirmExecution_Inr simp: operator_call_None)
next
  case (Refund s j)
  with assms show ?thesis by (auto dest!: refund_Inr)
next
  case (SettleBudget s a)
  with assms show ?thesis by (auto dest!: settleBudget_Inr)
qed

lemma run_settled:
  "ledger_inv g \<Longrightarrow> settled (sessions g sid) \<Longrightarrow> settled (sessions (run txs g) sid)"
proof (induction txs rule: rev_induct)
  case Nil
  then show ?case by (simp add: run_def)
next
  case (snoc tx txs)
  then have s: "settled (sessions (run txs g) sid)" and i: "ledger_inv (run txs g)"
    by (simp_all add: run_inv)
  show ?case
    unfolding run_snoc transact_def using s i
    by (auto split: sum.splits dest: exec_settled)
qed

lemma confirm_txs_session:
  "payer (sessions (run confirm_txs gate0) 1) = payerA \<and>
   totalLocked (sessions (run confirm_txs gate0) 1) = 5 \<and>
   operator (run confirm_txs gate0) = operatorA \<and>
   this (run confirm_txs gate0) = gateA \<and>
   payer (sessions (run confirm_txs gate0) 2) = 0"
  by (simp add: confirm_txs_def ledger_eval)

lemma settle_3_succeeds:
  "\<exists>g'. settleBudget operatorA 1 3 (run confirm_txs gate0) = Inr g'"
  by (simp add: confirm_txs_def ledger_eval)

lemma settled_txs_settled: "settled (sessions (run settled_txs gate0) 1)"
  by (simp add: settled_txs_def confirm_txs_def ledger_eval)


text \<open>
  Claim C7: \<open>settleBudget\<close> on a settled session fails, and so it does when the
  session does not exist or the supplied amount exceeds \<open>totalLocked\<close>; a failed
  call leaves the whole state, token balances included, as it was. Once a session is
  settled in a state reached from deployment it stays settled, whatever is called
  next. A successful call marks the session settled, stores the supplied amount, and
  changes the token balances by exactly \<open>totalLocked - spent\<close> in favour of the payer
  and \<open>spent\<close> in favour of the operator, both taken from the gate.
\<close>

theorem settleBudget_contract:
  "(settled (sessions g sid) \<longrightarrow> isl (settleBudget sender sid spent g)) \<and>
   (payer (sessions g sid) = 0 \<longrightarrow> isl (settleBudget sender sid spent g)) \<and>
   (totalLocked (sessions g sid) < spent \<longrightarrow> isl (settleBudget sender sid spent g)) \<and>
   (isl (settleBudget sender sid spent g) \<longrightarrow> transact g (sender, SettleBudget sid spent) = g) \<and>
   (settled (sessions (run txs (constructor tok self opr)) sid) \<longrightarrow>
      settled (sessions (run (txs @ txs') (constructor tok self opr)) sid)) \<and>
   (settleBudget sender sid spent g = Inr g' \<longrightarrow>
      settled (sessions g' sid) \<and> totalSpent (sessions g' sid) = spent \<and>
      (\<forall>a. balance_change (paymentToken g) (paymentToken g') a =
             (if a = payer (sessions g sid)
              then int (unat (totalLocked (sessions g sid) - spent)) else 0)
           + (if a = operator g then int (unat spent) else 0)
           - (if a = this g then int (unat (totalLocked (sessions g sid))) else 0)))"
proof -
  have "settled (sessions (run txs (constructor tok self opr)) sid) \<longrightarrow>
      settled (sessions (run (txs @ txs') (constructor tok self opr)) sid)"
    unfolding run_app
    by (auto intro!: run_settled run_inv ledger_inv_constructor)
  moreover have "settleBudget sender sid spent g = Inr g' \<longrightarrow>
      settled (sessions g' sid) \<and> totalSpent (sessions g' sid) = spent"
    by (auto dest!: settleBudget_Inr)
  moreover have "isl (settleBudget sender sid spent g) \<longrightarrow>
      transact g (sender, SettleBudget sid spent) = g"
    using transact_rejected [of sender "SettleBudget sid spent" g] by simp
  ultimately show ?thesis
    using settleBudget_rejects [of g sid spent sender] settleBudget_pays [of sender sid spent g g']
    by blast
qed

theorem settleBudget_contract_witness:
  "(\<exists>g'. settleBudget operatorA 1 3 (run confirm_txs gate0) = Inr g' \<and>
      settled (sessions g' 1) \<and> totalSpent (sessions g' 1) = 3 \<and>
      balance_change (paymentToken (run confirm_txs gate0)) (paymentToken g') payerA = 2 \<and>
      balance_change (paymentToken (run confirm_txs gate0)) (paymentToken g') operatorA = 3 \<and>
      balance_change (paymentToken (run confirm_txs gate0)) (paymentToken g') gateA = - 5) \<and>
   settled (sessions (run settled_txs gate0) 1) \<and>
   isl (settleBudget operatorA 1 0 (run settled_txs gate0)) \<and>
   transact (run settled_txs gate0) (operatorA, SettleBudget 1 0) = run settled_txs gate0 \<and>
   isl (settleBudget operatorA 1 6 (run confirm_txs gate0)) \<and>
   isl (settleBudget operatorA 2 0 (run confirm_txs gate0)) \<and>
   settled (sessions (run (settled_txs @ [(payerA, LockBudget 1 4 1)]) gate0) 1)"
proof -
  note s = confirm_txs_session
  obtain g' where g': "settleBudget operatorA 1 3 (run confirm_txs gate0) = Inr g'"
    using settle_3_succeeds by blast
  have 1: "settled (sessions g' 1) \<and> totalSpent (sessions g' 1) = 3 \<and>
      balance_change (paymentToken (run confirm_txs gate0)) (paymentToken g') payerA = 2 \<and>
      balance_change (paymentToken (run confirm_txs gate0)) (paymentToken g') operatorA = 3 \<and>
      balance_change (paymentToken (run confirm_txs gate0)) (paymentToken g') gateA = - 5"
    using settleBudget_contract [of "run confirm_txs gate0" 1 operatorA 3 _ _ _ _ _ g'] g' s
    by (simp add: payerA_def operatorA_def gateA_def)
  have st: "settled (sessions (run settled_txs gate0) 1)" by (rule settled_txs_settled)
  have 2: "isl (settleBudget operatorA 1 0 (run settled_txs gate0))"
    using settleBudget_contract [of "run settled_txs gate0" 1 operatorA 0] st by blast
  have 3: "transact (run settled_txs gate0) (operatorA, SettleBudget 1 0) = run settled_txs gate0"
    using settleBudget_contract [of "run settled_txs gate0" 1 operatorA 0] 2 by blast
  have 4: "isl (settleBudget operatorA 1 6 (run confirm_txs gate0))"
    using settleBudget_contract [of "run confirm_txs gate0" 1 operatorA 6] s by simp
  have 5: "isl (settleBudget operatorA 2 0 (run confirm_txs gate0))"
    using settleBudget_contract [of "run confirm_txs gate0" 2 operatorA 0] s by blast
  have 6: "settled (sessions (run (settled_txs @ [(payerA, LockBudget 1 4 1)]) gate0) 1)"
    using settleBudget_contract [of _ 1 _ _ settled_txs token0 gateA operatorA
            "[(payerA, LockBudget 1 4 1)]"] st
    by (simp add: gate0_def)
  from g' 1 st 2 3 4 5 6 show ?thesis by blast
qed

section \<open>Properties of the step scheduler\<close>

subsection \<open>Auxiliary facts\<close>

lemma Executor_authorizePayment_frame:
  "pa_authorized (fst (Executor_authorizePayment step sid ex)) \<and>
   stepResults (snd (Executor_authorizePayment step sid ex)) = stepResults ex \<and>
   ex_totalSpent (snd (Executor_authorizePayment step sid ex)) = ex_totalSpent ex \<and>
   config (snd (Executor_authorizePayment step sid ex)) = config ex"
  by (simp add: Executor_authorizePayment_def authorizePayment_via_def callContract_def Let_def)







lemmas exec_eval =
  executeAll_def executeAll_with_def refusing_call_def Executor_authorizePayment_def
  authorizePayment_via_def on_chain_def
  cfg_sim_def cfg_chain_def executeTool_def executeTavily_def executeAnthropic_def
  executeBlockchainRPC_def world_ok_def world_search_down_def plan_B_def plan_C_def step_B_def
  no_config_def js_add_def confirmPayment_def refundPayment_def callContract_def
  completed_result_def failed_result_def denied_result_def authorization_failed_def
  new_Executor_def Let_def


subsection \<open>A denied authorization halts the run\<close>






subsection \<open>A failed tool call is refunded and the run goes on\<close>




lemma own_authorization_never_halts:
  "fst (executeAll_loop Executor_authorizePayment w plan sts ex) = False"
proof (induction sts arbitrary: ex)
  case Nil
  then show ?case by simp
next
  case (Cons step rest)
  obtain payment ex1 where a: "Executor_authorizePayment step (session_id plan) ex = (payment, ex1)"
    by (cases "Executor_authorizePayment step (session_id plan) ex")
  with Executor_authorizePayment_frame [of step "session_id plan" ex]
  have "pa_authorized payment" by simp
  with a show ?case
    by (simp add: Let_def Cons.IH split: sum.splits)
qed

lemma executeAll_never_halts: "\<not> halted (fst (executeAll w plan ex))"
  using own_authorization_never_halts [of w plan "steps plan" ex]
  by (simp add: executeAll_def executeAll_with_def split_beta)






subsection \<open>Scenario B\<close>

text \<open>
  Claim C4 expects, for three steps estimated at 0.3 each and a budget of 0.5, that the
  second authorization is denied, the run halts, the results are
  \<open>[completed, payment_denied]\<close> and one step counts as executed. The executor's
  \<open>authorizePayment\<close> never compares anything with the budget: with or without a
  contract address it authorizes every step. All three steps run and complete, the
  run is not halted, and three steps count as executed.
\<close>

theorem scenario_B_runs_all_three_steps:
  "map status (results (fst (executeAll world_ok plan_B (new_Executor cfg_sim))))
     = [completed, completed, completed] \<and>
   \<not> halted (fst (executeAll world_ok plan_B (new_Executor cfg_sim))) \<and>
   steps_executed (results (fst (executeAll world_ok plan_B (new_Executor cfg_sim)))) = 3 \<and>
   map status (results (fst (executeAll world_ok plan_B (new_Executor cfg_chain))))
     = [completed, completed, completed] \<and>
   \<not> halted (fst (executeAll world_ok plan_B (new_Executor cfg_chain))) \<and>
   steps_executed (results (fst (executeAll world_ok plan_B (new_Executor cfg_chain)))) = 3"
  by (simp add: exec_eval steps_executed_def completedSteps_def)

subsection \<open>The executor keeps what earlier runs left\<close>



section \<open>Properties of the result aggregator\<close>

subsection \<open>Auxiliary facts\<close>

lemma basic_hostname_examples:
  "basic_hostname ''https://a.com/x'' = Some ''a.com'' \<and>
   basic_hostname ''https://a.com/y'' = Some ''a.com'' \<and>
   basic_hostname ''httpx'' = None"
  by (simp add: basic_hostname_def startsWith_def host_char_def Let_def)

lemma unique_foldl:
  "set (foldl (\<lambda>acc x. if x \<in> set acc then acc else acc @ [x]) acc xs) = set acc \<union> set xs \<and>
   (distinct acc \<longrightarrow> distinct (foldl (\<lambda>acc x. if x \<in> set acc then acc else acc @ [x]) acc xs))"
  by (induction xs arbitrary: acc) auto

lemma set_unique: "set (unique xs) = set xs"
  using unique_foldl [of "[]" xs] by (simp add: unique_def)


lemma map_throwing_Inr: "map_throwing f xs = Inr ys \<longleftrightarrow> map f xs = map Inr ys"
proof (induction xs arbitrary: ys)
  case Nil
  then show ?case by auto
next
  case (Cons x xs)
  show ?case
  proof (cases "f x")
    case (Inl e)
    then show ?thesis by (cases ys) auto
  next
    case y: (Inr y)
    show ?thesis
    proof (cases "map_throwing f xs")
      case (Inl e)
      with Cons.IH have "\<And>zs. map f xs \<noteq> map Inr zs" by simp
      with y Inl show ?thesis by (cases ys) auto
    next
      case (Inr zs)
      with Cons.IH [of zs] have "map f xs = map Inr zs" by simp
      with y Inr show ?thesis by (cases ys) (auto dest: map_injective [OF _ inj_Inr])
    qed
  qed
qed

lemma map_throwing_Inl:
  "map_throwing f xs = Inl e \<Longrightarrow> \<exists>x \<in> set xs. f x = Inl e"
  by (induction xs) (auto split: sum.splits)


lemma source_reference_Inl:
  "source_reference hostname_of s = Inl e \<longleftrightarrow>
     startsWith s ''http'' \<and> hostname_of s = None \<and> e = ''Invalid URL''"
  by (auto simp: source_reference_def Let_def split: option.splits)


subsection \<open>Source deduplication can throw\<close>

text \<open>
  Claim C9: \<open>deduplicateSources\<close> is not total. Whenever the list holds a string that
  starts with \<open>http\<close> and that the URL parser rejects, the call throws the parser's
  error instead of returning a list, whatever else the list holds; the string
  \<open>httpx\<close> is such a string.
\<close>

theorem deduplicateSources_throws:
  assumes "s \<in> set srcs" "startsWith s ''http''" "hostname_of s = None"
  shows "deduplicateSources hostname_of srcs = Inl ''Invalid URL''"
proof (cases "deduplicateSources hostname_of srcs")
  case (Inl e)
  then obtain x where "source_reference hostname_of x = Inl e"
    unfolding deduplicateSources_def by (auto dest: map_throwing_Inl)
  then have "e = ''Invalid URL''" by (simp add: source_reference_Inl)
  with Inl show ?thesis by simp
next
  case (Inr refs)
  then have "map (source_reference hostname_of) (unique srcs) = map Inr refs"
    by (simp add: deduplicateSources_def map_throwing_Inr)
  moreover from assms(1) have "s \<in> set (unique srcs)" by (simp add: set_unique)
  ultimately have "source_reference hostname_of s \<in> Inr ` set refs"
    by (metis image_eqI list.set_map)
  moreover have "source_reference hostname_of s = Inl ''Invalid URL''"
    using assms(2,3) by (simp add: source_reference_Inl)
  ultimately show ?thesis by auto
qed

theorem deduplicateSources_throws_witness:
  "deduplicateSources basic_hostname [''https://a.com/x'', ''httpx'', ''internal-note'']
     = Inl ''Invalid URL''"
proof -
  have "basic_hostname ''httpx'' = None"
    by (simp add: basic_hostname_examples)
  moreover have "startsWith ''httpx'' ''http''" by (simp add: startsWith_def)
  ultimately show ?thesis
    using deduplicateSources_throws
            [of "''httpx''" "[''https://a.com/x'', ''httpx'', ''internal-note'']" basic_hostname]
    by simp
qed

subsection \<open>Titles of the deduplicated sources\<close>





end
